theory Spec2Isabelle
  imports Main
begin

section \<open>Scope guards\<close>

text \<open>
  The guarded action \<^verbatim>\<open>func_\<close> is a zero-argument callable that acts on whatever it has
  captured. It is modelled as a transformer of the captured state \<open>'w\<close>; calling
  \<^verbatim>\<open>func_()\<close> is applying the transformer to the current state. The actions modelled
  return normally.
\<close>

subsection \<open>\<^verbatim>\<open>scoped_lambda\<close>: the unconditional guard\<close>

record 'w scoped_lambda =
  sl_func :: "'w \<Rightarrow> 'w"
  sl_cancel :: bool

text \<open>\<^verbatim>\<open>scoped_lambda(FUNC &&func) : func_(func), cancel_(false)\<close>\<close>

definition scoped_lambda_ctor :: "('w \<Rightarrow> 'w) \<Rightarrow> 'w scoped_lambda" where
  "scoped_lambda_ctor func = \<lparr>sl_func = func, sl_cancel = False\<rparr>"

text \<open>\<^verbatim>\<open>void cancel() { cancel_ = true; }\<close>\<close>

definition cancel :: "'w scoped_lambda \<Rightarrow> 'w scoped_lambda" where
  "cancel g = g\<lparr>sl_cancel := True\<rparr>"

text \<open>
  \<^verbatim>\<open>scoped_lambda(scoped_lambda &&other) : func_(other.func_), cancel_(other.cancel_)
     { other.cancel(); }\<close>
  The result is the pair of the new guard and the source guard as the constructor
  leaves it. The new guard's \<^verbatim>\<open>func_\<close> is move-constructed from the source's, through
  \<^verbatim>\<open>std::forward<FUNC>(other.func_)\<close>: the new guard holds the action, and what the source
  holds afterwards is decided by the move constructor of \<^verbatim>\<open>FUNC\<close>, not by this class (the
  action itself when \<^verbatim>\<open>FUNC\<close> is a reference, a moved-from callable when it is a value).
  It is the argument \<open>moved_from\<close>, about which nothing is assumed.
\<close>

definition scoped_lambda_move ::
  "('w \<Rightarrow> 'w) \<Rightarrow> 'w scoped_lambda \<Rightarrow> 'w scoped_lambda \<times> 'w scoped_lambda" where
  "scoped_lambda_move moved_from other =
     (\<lparr>sl_func = sl_func other, sl_cancel = sl_cancel other\<rparr>,
      cancel (other\<lparr>sl_func := moved_from\<rparr>))"

text \<open>\<^verbatim>\<open>~scoped_lambda() { if (!cancel_) { func_(); } }\<close>\<close>

definition scoped_lambda_dtor :: "'w scoped_lambda \<Rightarrow> 'w \<Rightarrow> 'w" where
  "scoped_lambda_dtor g w = (if \<not> sl_cancel g then sl_func g w else w)"

text \<open>\<^verbatim>\<open>void call_now() { cancel_ = true; func_(); }\<close>\<close>

definition call_now :: "'w scoped_lambda \<Rightarrow> 'w \<Rightarrow> 'w scoped_lambda \<times> 'w" where
  "call_now g w = (let g' = g\<lparr>sl_cancel := True\<rparr> in (g', sl_func g' w))"

subsection \<open>\<^verbatim>\<open>conditional_scoped_lambda\<close>: the failure-only and success-only guards\<close>

text \<open>
  The fields \<^verbatim>\<open>func_\<close>, \<^verbatim>\<open>uncaught_exception_count_\<close> and \<^verbatim>\<open>cancel_\<close> of this class
  carry the prefix \<open>csl_\<close>, as those of \<^verbatim>\<open>scoped_lambda\<close> carry \<open>sl_\<close> (a constant's name
  cannot end with an underscore, and the two classes use the same names). The template
  parameter \<^verbatim>\<open>CALL_ON_FAILURE\<close> is a constant of the guard's type: it is the field
  \<open>CALL_ON_FAILURE\<close>, which the constructor takes as its first argument, a move keeps
  (source and destination have the same type) and nothing changes. The value of
  \<^verbatim>\<open>std::uncaught_exceptions()\<close> is an argument of the two members that read it, the
  constructor and the destructor. The count is only stored and compared, never
  computed with, so it is an \<open>int\<close>.
\<close>

record 'w conditional_scoped_lambda =
  CALL_ON_FAILURE :: bool
  csl_func :: "'w \<Rightarrow> 'w"
  csl_uncaught_exception_count :: int
  csl_cancel :: bool

text \<open>
  \<^verbatim>\<open>conditional_scoped_lambda(FUNC &&func) : func_(func),
     uncaught_exception_count_(std::uncaught_exceptions()), cancel_(false)\<close>
\<close>

definition conditional_scoped_lambda_ctor ::
  "bool \<Rightarrow> ('w \<Rightarrow> 'w) \<Rightarrow> int \<Rightarrow> 'w conditional_scoped_lambda" where
  "conditional_scoped_lambda_ctor call_on_failure func uncaught_exceptions =
     \<lparr>CALL_ON_FAILURE = call_on_failure, csl_func = func,
      csl_uncaught_exception_count = uncaught_exceptions,
      csl_cancel = False\<rparr>"

definition cond_cancel :: "'w conditional_scoped_lambda \<Rightarrow> 'w conditional_scoped_lambda" where
  "cond_cancel g = g\<lparr>csl_cancel := True\<rparr>"

text \<open>
  \<^verbatim>\<open>conditional_scoped_lambda(conditional_scoped_lambda &&other) : func_(other.func_),
     uncaught_exception_count_(other.uncaught_exception_count_), cancel_(other.cancel_)
     { other.cancel(); }\<close>
  As for \<^verbatim>\<open>scoped_lambda\<close>, \<open>moved_from\<close> is what the move of \<^verbatim>\<open>func_\<close> leaves in the source.
\<close>

definition conditional_scoped_lambda_move ::
  "('w \<Rightarrow> 'w) \<Rightarrow> 'w conditional_scoped_lambda \<Rightarrow>
     'w conditional_scoped_lambda \<times> 'w conditional_scoped_lambda" where
  "conditional_scoped_lambda_move moved_from other =
     (\<lparr>CALL_ON_FAILURE = CALL_ON_FAILURE other, csl_func = csl_func other,
       csl_uncaught_exception_count = csl_uncaught_exception_count other,
       csl_cancel = csl_cancel other\<rparr>,
      cond_cancel (other\<lparr>csl_func := moved_from\<rparr>))"

text \<open>\<^verbatim>\<open>return std::uncaught_exceptions() > uncaught_exception_count_;\<close>\<close>

definition is_unwinding_due_to_exception :: "'w conditional_scoped_lambda \<Rightarrow> int \<Rightarrow> bool" where
  "is_unwinding_due_to_exception g uncaught_exceptions =
     (uncaught_exceptions > csl_uncaught_exception_count g)"

text \<open>
  \<^verbatim>\<open>if (!cancel_ && (is_unwinding_due_to_exception() == CALL_ON_FAILURE)) { func_(); }\<close>
\<close>

definition conditional_scoped_lambda_dtor ::
  "'w conditional_scoped_lambda \<Rightarrow> int \<Rightarrow> 'w \<Rightarrow> 'w" where
  "conditional_scoped_lambda_dtor g uncaught_exceptions w =
     (if \<not> csl_cancel g \<and>
         (is_unwinding_due_to_exception g uncaught_exceptions = CALL_ON_FAILURE g)
      then csl_func g w else w)"

subsection \<open>The factory functions and the \<^verbatim>\<open>ON_SCOPE_EXIT\<close> form\<close>

definition on_scope_exit :: "('w \<Rightarrow> 'w) \<Rightarrow> 'w scoped_lambda" where
  "on_scope_exit func = scoped_lambda_ctor func"

text \<open>
  \<^verbatim>\<open>on_scope_failure\<close> returns a \<^verbatim>\<open>conditional_scoped_lambda<FUNC, true>\<close> and
  \<^verbatim>\<open>on_scope_success\<close> a \<^verbatim>\<open>conditional_scoped_lambda<FUNC, false>\<close>. The second argument
  is the value of \<^verbatim>\<open>std::uncaught_exceptions()\<close> when the guard is constructed.
\<close>

definition on_scope_failure :: "('w \<Rightarrow> 'w) \<Rightarrow> int \<Rightarrow> 'w conditional_scoped_lambda" where
  "on_scope_failure func uncaught_exceptions =
     conditional_scoped_lambda_ctor True func uncaught_exceptions"

definition on_scope_success :: "('w \<Rightarrow> 'w) \<Rightarrow> int \<Rightarrow> 'w conditional_scoped_lambda" where
  "on_scope_success func uncaught_exceptions =
     conditional_scoped_lambda_ctor False func uncaught_exceptions"

text \<open>\<^verbatim>\<open>enum class ScopeExit {};\<close> has the single value \<^verbatim>\<open>ScopeExit()\<close> in use.\<close>

datatype ScopeExit = ScopeExit

text \<open>
  \<^verbatim>\<open>scoped_lambda<Func> operator+(ScopeExit, Func &&fn) { return on_scope_exit(fn); }\<close>
\<close>

definition operator_plus :: "ScopeExit \<Rightarrow> ('w \<Rightarrow> 'w) \<Rightarrow> 'w scoped_lambda" where
  "operator_plus marker fn = on_scope_exit fn"

text \<open>
  \<^verbatim>\<open>ON_SCOPE_EXIT { body }\<close> expands to
  \<^verbatim>\<open>auto exitBlock_N = fragment::detail::ScopeExit() + [&]() { body }\<close>.
\<close>

definition ON_SCOPE_EXIT :: "('w \<Rightarrow> 'w) \<Rightarrow> 'w scoped_lambda" where
  "ON_SCOPE_EXIT body = operator_plus ScopeExit body"

subsection \<open>Lifetimes of a guard\<close>

text \<open>
  What a client can do with a guard between its construction and its destruction is
  a sequence of member calls; the destructor runs once, last.
\<close>

datatype guard_op = Cancel | CallNow

fun apply_op :: "guard_op \<Rightarrow> 'w scoped_lambda \<times> 'w \<Rightarrow> 'w scoped_lambda \<times> 'w" where
  "apply_op Cancel (g, w) = (cancel g, w)"
| "apply_op CallNow (g, w) = call_now g w"

fun run_ops :: "guard_op list \<Rightarrow> 'w scoped_lambda \<times> 'w \<Rightarrow> 'w scoped_lambda \<times> 'w" where
  "run_ops [] s = s"
| "run_ops (x # xs) s = run_ops xs (apply_op x s)"

definition lifetime :: "'w scoped_lambda \<Rightarrow> guard_op list \<Rightarrow> 'w \<Rightarrow> 'w" where
  "lifetime g ops w = (case run_ops ops (g, w) of (g', w') \<Rightarrow> scoped_lambda_dtor g' w')"

text \<open>
  A conditional guard has \<^verbatim>\<open>cancel\<close> as its only member call: a lifetime is some number
  of cancels, then the destructor.
\<close>

definition cond_lifetime ::
  "'w conditional_scoped_lambda \<Rightarrow> nat \<Rightarrow> int \<Rightarrow> 'w \<Rightarrow> 'w" where
  "cond_lifetime g cancels uncaught_exceptions w =
     conditional_scoped_lambda_dtor ((cond_cancel ^^ cancels) g)
       uncaught_exceptions w"

text \<open>
  Counting invocations: \<open>counted f\<close> is the action \<open>f\<close> that also bumps a counter kept
  beside the state it acts on. The guards never look into their action, so the
  counter of the final state is the number of times the guard has called \<open>f\<close>.
\<close>

definition counted :: "('w \<Rightarrow> 'w) \<Rightarrow> 'w \<times> nat \<Rightarrow> 'w \<times> nat" where
  "counted f = (\<lambda>(w, n). (f w, Suc n))"

section \<open>Member access\<close>

text \<open>
  \<^verbatim>\<open>template <typename T, auto... Field> struct StealMember {
     friend auto steal_impl(T &t) { return std::make_tuple(Field...); } };\<close>
  An instance of \<^verbatim>\<open>T\<close> gives each member \<open>'m\<close> of \<^verbatim>\<open>T\<close> its current value \<open>'v\<close>. The
  template arguments \<^verbatim>\<open>Field...\<close> are the pointers to the declared members,
  \<^verbatim>\<open>&T::m\<close>: the argument \<open>ptrs\<close> here, each pointer given by the member it designates.
  An element of a tuple is a pointer to a member or a value of a member.
\<close>

datatype ('m, 'v) tuple_elem = MemberPtr 'm | MemberVal 'v

type_synonym ('m, 'v) object = "'m \<Rightarrow> 'v"

definition steal_impl :: "'m list \<Rightarrow> ('m, 'v) object \<Rightarrow> ('m, 'v) tuple_elem list" where
  "steal_impl ptrs t = map MemberPtr ptrs"

text \<open>\<^verbatim>\<open>t.*p\<close>: the member of \<open>t\<close> that the pointer \<open>p\<close> designates.\<close>

fun deref :: "('m, 'v) object \<Rightarrow> ('m, 'v) tuple_elem \<Rightarrow> 'v option" where
  "deref t (MemberPtr m) = Some (t m)"
| "deref t (MemberVal v) = None"

text \<open>The snapshot of the declared members' current values, as a tuple.\<close>

definition member_values :: "'m list \<Rightarrow> ('m, 'v) object \<Rightarrow> ('m, 'v) tuple_elem list" where
  "member_values ptrs t = map (\<lambda>m. MemberVal (t m)) ptrs"

text \<open>A type with three members of distinct types, and the values they hold.\<close>

datatype member = Member_a | Member_b | Member_c

datatype val = IntV int | BoolV bool | StrV string

fun instance1 :: "(member, val) object" where
  "instance1 Member_a = IntV 1"
| "instance1 Member_b = BoolV True"
| "instance1 Member_c = StrV ''x''"

fun instance2 :: "(member, val) object" where
  "instance2 Member_a = IntV 2"
| "instance2 Member_b = BoolV False"
| "instance2 Member_c = StrV ''y''"

section \<open>Properties of the scope guards\<close>

subsection \<open>What a sequence of member calls leaves behind\<close>

text \<open>
  Member calls never replace the action; each of them leaves the cancelled flag set;
  and the state they leave is the action applied once per \<^verbatim>\<open>call_now\<close>.
\<close>

lemma counted_funpow: "(counted f ^^ k) (w, n) = ((f ^^ k) w, n + k)"
  by (induction k arbitrary: w n) (simp_all add: counted_def funpow_swap1)

lemma apply_op_func: "sl_func (fst (apply_op x (g, w))) = sl_func g"
  by (cases x) (simp_all add: cancel_def call_now_def)

lemma apply_op_cancelled: "sl_cancel (fst (apply_op x (g, w)))"
  by (cases x) (simp_all add: cancel_def call_now_def)

lemma apply_op_state:
  "snd (apply_op x (g, w)) = (if x = CallNow then sl_func g w else w)"
  by (cases x) (simp_all add: cancel_def call_now_def)

lemma run_ops_func: "sl_func (fst (run_ops ops (g, w))) = sl_func g"
proof (induction ops arbitrary: g w)
  case Nil
  show ?case by simp
next
  case (Cons x xs)
  obtain g' w' where s: "apply_op x (g, w) = (g', w')" by (cases "apply_op x (g, w)")
  have "sl_func g' = sl_func g" using apply_op_func [of x g w] s by simp
  then show ?case using Cons.IH [of g' w'] s by simp
qed

lemma run_ops_cancelled:
  "sl_cancel (fst (run_ops ops (g, w))) = (sl_cancel g \<or> ops \<noteq> [])"
proof (induction ops arbitrary: g w)
  case Nil
  show ?case by simp
next
  case (Cons x xs)
  obtain g' w' where s: "apply_op x (g, w) = (g', w')" by (cases "apply_op x (g, w)")
  have "sl_cancel g'" using apply_op_cancelled [of x g w] s by simp
  then show ?case using Cons.IH [of g' w'] s by simp
qed

lemma run_ops_state:
  "snd (run_ops ops (g, w)) = (sl_func g ^^ count_list ops CallNow) w"
proof (induction ops arbitrary: g w)
  case Nil
  show ?case by simp
next
  case (Cons x xs)
  obtain g' w' where s: "apply_op x (g, w) = (g', w')" by (cases "apply_op x (g, w)")
  have f: "sl_func g' = sl_func g" using apply_op_func [of x g w] s by simp
  have w': "w' = (if x = CallNow then sl_func g w else w)"
    using apply_op_state [of x g w] s by simp
  show ?case using Cons.IH [of g' w'] s f w' by (simp add: funpow_swap1)
qed

lemma lifetime_eq:
  "lifetime g ops w =
     (sl_func g ^^ (count_list ops CallNow + (if sl_cancel g \<or> ops \<noteq> [] then 0 else 1))) w"
proof -
  obtain g' w' where s: "run_ops ops (g, w) = (g', w')" by (cases "run_ops ops (g, w)")
  have f: "sl_func g' = sl_func g" using run_ops_func [of ops g w] s by simp
  have c: "sl_cancel g' = (sl_cancel g \<or> ops \<noteq> [])" using run_ops_cancelled [of ops g w] s by simp
  have w': "w' = (sl_func g ^^ count_list ops CallNow) w" using run_ops_state [of ops g w] s by simp
  show ?thesis using s f c w' by (simp add: lifetime_def scoped_lambda_dtor_def)
qed

lemma cond_cancel_funpow:
  "(cond_cancel ^^ k) g = (if k = 0 then g else g\<lparr>csl_cancel := True\<rparr>)"
  by (induction k) (simp_all add: cond_cancel_def)

lemma count_list_replicate_self: "count_list (replicate k x) x = k"
  by (induction k) simp_all

subsection \<open>C2: how often the action runs over a lifetime\<close>

text \<open>
  C2 as stated, at most one invocation over every sequence of member calls, fails:
  \<^verbatim>\<open>call_now\<close> does not test the cancelled flag, so two calls of it on the guard of an
  incrementing action leave the counter at two.
\<close>

theorem call_now_twice_invokes_twice:
  "\<not> snd (lifetime (on_scope_exit (counted Suc)) [CallNow, CallNow] (0, 0)) \<le> 1"
  by (simp add: lifetime_def on_scope_exit_def scoped_lambda_ctor_def call_now_def
      scoped_lambda_dtor_def counted_def)

text \<open>
  C2, amended. Over a lifetime of an unconditional guard the action runs once per
  \<^verbatim>\<open>call_now\<close>, and once more in the destructor exactly when the guard was not cancelled
  to begin with and no member was called. So the destructor invokes the action at most
  once and never after a \<^verbatim>\<open>call_now\<close> (at most one of the two paths invokes it); the
  action runs at most once whenever \<^verbatim>\<open>call_now\<close> is called at most once; and a
  conditional guard, which has no \<^verbatim>\<open>call_now\<close>, runs it at most once over any lifetime.
\<close>

theorem invocations_over_lifetime:
  "lifetime g ops w =
     (sl_func g ^^ (count_list ops CallNow + (if sl_cancel g \<or> ops \<noteq> [] then 0 else 1))) w
   \<and> snd (lifetime \<lparr>sl_func = counted f, sl_cancel = b\<rparr> ops (s, 0)) =
       count_list ops CallNow + (if b \<or> ops \<noteq> [] then 0 else 1)
   \<and> (CallNow \<in> set ops \<longrightarrow> lifetime g ops w = snd (run_ops ops (g, w)))
   \<and> (count_list ops CallNow \<le> 1 \<longrightarrow>
        snd (lifetime \<lparr>sl_func = counted f, sl_cancel = b\<rparr> ops (s, 0)) \<le> 1)
   \<and> snd (cond_lifetime
         \<lparr>CALL_ON_FAILURE = cf, csl_func = counted f, csl_uncaught_exception_count = c_ctor,
          csl_cancel = b\<rparr>
         cancels c_dtor (s, 0)) \<le> 1"
proof -
  let ?g = "\<lparr>sl_func = counted f, sl_cancel = b\<rparr>"
  let ?k = "count_list ops CallNow + (if b \<or> ops \<noteq> [] then 0 else 1)"
  have general: "lifetime g ops w =
     (sl_func g ^^ (count_list ops CallNow + (if sl_cancel g \<or> ops \<noteq> [] then 0 else 1))) w"
    by (rule lifetime_eq)
  have "lifetime ?g ops (s, 0) = ((f ^^ ?k) s, ?k)"
    using lifetime_eq [of ?g ops "(s, 0)"] counted_funpow [where f = f and k = ?k and w = s and n = 0]
    by simp
  then have count: "snd (lifetime ?g ops (s, 0)) = ?k" by simp
  have dtor_silent: "lifetime g ops w = snd (run_ops ops (g, w))" if "CallNow \<in> set ops"
  proof -
    from that have ne: "ops \<noteq> []" by auto
    obtain g' w' where r: "run_ops ops (g, w) = (g', w')" by (cases "run_ops ops (g, w)")
    have "sl_cancel g'" using run_ops_cancelled [of ops g w] r ne by simp
    then show ?thesis using r by (simp add: lifetime_def scoped_lambda_dtor_def)
  qed
  have once: "snd (lifetime ?g ops (s, 0)) \<le> 1" if "count_list ops CallNow \<le> 1"
  proof (cases "ops = []")
    case True
    then show ?thesis using count by simp
  next
    case False
    then show ?thesis using count that by simp
  qed
  have cond: "snd (cond_lifetime
         \<lparr>CALL_ON_FAILURE = cf, csl_func = counted f, csl_uncaught_exception_count = c_ctor,
          csl_cancel = b\<rparr>
         cancels c_dtor (s, 0)) \<le> 1"
    by (simp add: cond_lifetime_def conditional_scoped_lambda_dtor_def counted_def cond_cancel_funpow)
  from general count dtor_silent once cond show ?thesis by blast
qed

theorem invocations_over_lifetime_witness:
  "CallNow \<in> set [Cancel, CallNow] \<and> count_list [Cancel, CallNow] CallNow \<le> 1
   \<and> lifetime (on_scope_exit (counted Suc)) [Cancel, CallNow] (0, 0) = (1, 1)
   \<and> lifetime (on_scope_exit (counted Suc)) [Cancel, CallNow] (0, 0)
       = snd (run_ops [Cancel, CallNow] (on_scope_exit (counted Suc), (0, 0)))
   \<and> snd (lifetime \<lparr>sl_func = counted Suc, sl_cancel = False\<rparr> [Cancel, CallNow] (0, 0)) \<le> 1"
  using invocations_over_lifetime [where g = "on_scope_exit (counted Suc)"
      and ops = "[Cancel, CallNow]" and w = "(0, 0)" and f = Suc and b = False and s = 0]
  by (simp add: on_scope_exit_def scoped_lambda_ctor_def counted_def cancel_def call_now_def)

subsection \<open>C3: the failure-only guard\<close>

text \<open>
  C3. \<^verbatim>\<open>on_scope_failure\<close> records the count of uncaught exceptions it is given at
  construction and returns a guard that is not cancelled. The destructor of a
  failure-only guard that is not cancelled invokes the action when the count at
  destruction is strictly greater than the recorded one, and does not invoke it
  otherwise (equal or smaller): with a counting action, the counter ends at one in the
  first case and stays at zero in the second.
\<close>

theorem on_scope_failure_fires_iff_count_increased:
  assumes "\<not> csl_cancel g" and "CALL_ON_FAILURE g"
  shows "csl_uncaught_exception_count (on_scope_failure a c_ctor) = c_ctor
    \<and> \<not> csl_cancel (on_scope_failure a c_ctor) \<and> CALL_ON_FAILURE (on_scope_failure a c_ctor)
    \<and> conditional_scoped_lambda_dtor g c_dtor w =
        (if c_dtor > csl_uncaught_exception_count g then csl_func g w else w)
    \<and> conditional_scoped_lambda_dtor (on_scope_failure (counted f) c_ctor) c_dtor (s, 0) =
        (if c_dtor > c_ctor then (f s, 1) else (s, 0))"
  using assms
  by (simp add: on_scope_failure_def conditional_scoped_lambda_ctor_def
      conditional_scoped_lambda_dtor_def is_unwinding_due_to_exception_def counted_def)

theorem on_scope_failure_fires_iff_count_increased_witness:
  "\<not> csl_cancel (on_scope_failure (counted Suc) 0)
   \<and> CALL_ON_FAILURE (on_scope_failure (counted Suc) 0)
   \<and> conditional_scoped_lambda_dtor (on_scope_failure (counted Suc) 0) 1 (0, 0) = (1, 1)
   \<and> conditional_scoped_lambda_dtor (on_scope_failure (counted Suc) 0) 0 (0, 0) = (0, 0)
   \<and> conditional_scoped_lambda_dtor (on_scope_failure (counted Suc) 1) 1 (0, 0) = (0, 0)"
proof -
  have a: "\<not> csl_cancel (on_scope_failure (counted Suc) 0)"
    by (simp add: on_scope_failure_def conditional_scoped_lambda_ctor_def)
  have b: "CALL_ON_FAILURE (on_scope_failure (counted Suc) 0)"
    by (simp add: on_scope_failure_def conditional_scoped_lambda_ctor_def)
  have "conditional_scoped_lambda_dtor (on_scope_failure (counted Suc) 0) 1 (0, 0) = (1, 1)"
    using on_scope_failure_fires_iff_count_increased [OF a b,
        where f = Suc and c_ctor = 0 and c_dtor = 1 and s = 0
          and a = "counted Suc" and w = "(0, 0)"]
    by (simp add: on_scope_failure_def conditional_scoped_lambda_ctor_def counted_def)
  moreover
  have "conditional_scoped_lambda_dtor (on_scope_failure (counted Suc) 0) 0 (0, 0) = (0, 0)"
    using on_scope_failure_fires_iff_count_increased [OF a b,
        where f = Suc and c_ctor = 0 and c_dtor = 0 and s = 0
          and a = "counted Suc" and w = "(0, 0)"]
    by (simp add: on_scope_failure_def conditional_scoped_lambda_ctor_def counted_def)
  moreover
  have "conditional_scoped_lambda_dtor (on_scope_failure (counted Suc) 1) 1 (0, 0) = (0, 0)"
    using on_scope_failure_fires_iff_count_increased [OF a b,
        where f = Suc and c_ctor = 1 and c_dtor = 1 and s = 0
          and a = "counted Suc" and w = "(0, 0)"]
    by (simp add: on_scope_failure_def conditional_scoped_lambda_ctor_def counted_def)
  ultimately show ?thesis using a b by blast
qed

subsection \<open>C4: failure-only against success-only\<close>

text \<open>
  C4 as stated, exactly one of the two guards fires under identical stimuli, fails when
  the shared cancellation state is cancelled: both guards built at count 0 with the same
  action, both cancelled, both destroyed at count 1, and neither invokes the action.
\<close>

theorem cancelled_pair_fires_neither:
  "\<not> (snd (cond_lifetime (on_scope_failure (counted Suc) 0) 1 1 (0, 0)) = 1
        \<and> snd (cond_lifetime (on_scope_success (counted Suc) 0) 1 1 (0, 0)) = 0
      \<or> snd (cond_lifetime (on_scope_failure (counted Suc) 0) 1 1 (0, 0)) = 0
        \<and> snd (cond_lifetime (on_scope_success (counted Suc) 0) 1 1 (0, 0)) = 1)"
  by (simp add: cond_lifetime_def on_scope_failure_def on_scope_success_def
      conditional_scoped_lambda_ctor_def conditional_scoped_lambda_dtor_def cond_cancel_def)

text \<open>
  C4, amended. A failure-only and a success-only guard are built with the same action at
  the same count, receive the same number \<open>k\<close> of cancels and are destroyed at the same
  count. If neither was cancelled (\<open>k = 0\<close>), exactly one of them invokes the action: the
  failure-only one when the count has increased, the success-only one precisely when
  the failure-only one does not. If both were cancelled, neither invokes it.
\<close>

theorem failure_and_success_complementary_unless_cancelled:
  "cond_lifetime (on_scope_failure (counted f) c_ctor) k c_dtor (s, 0) =
     (if k = 0 \<and> c_dtor > c_ctor then (f s, 1) else (s, 0))
   \<and> cond_lifetime (on_scope_success (counted f) c_ctor) k c_dtor (s, 0) =
     (if k = 0 \<and> \<not> c_dtor > c_ctor then (f s, 1) else (s, 0))
   \<and> (k = 0 \<longrightarrow>
        snd (cond_lifetime (on_scope_failure (counted f) c_ctor) k c_dtor (s, 0))
          + snd (cond_lifetime (on_scope_success (counted f) c_ctor) k c_dtor (s, 0)) = 1)
   \<and> (k = 0 \<longrightarrow>
        (snd (cond_lifetime (on_scope_success (counted f) c_ctor) k c_dtor (s, 0)) = 1) =
        (snd (cond_lifetime (on_scope_failure (counted f) c_ctor) k c_dtor (s, 0)) = 0))
   \<and> (k > 0 \<longrightarrow>
        snd (cond_lifetime (on_scope_failure (counted f) c_ctor) k c_dtor (s, 0))
          + snd (cond_lifetime (on_scope_success (counted f) c_ctor) k c_dtor (s, 0)) = 0)"
  by (simp add: cond_lifetime_def on_scope_failure_def on_scope_success_def
      conditional_scoped_lambda_ctor_def conditional_scoped_lambda_dtor_def
      is_unwinding_due_to_exception_def cond_cancel_funpow counted_def)

theorem failure_and_success_complementary_unless_cancelled_witness:
  "cond_lifetime (on_scope_failure (counted Suc) 0) 0 1 (0, 0) = (1, 1)
   \<and> cond_lifetime (on_scope_success (counted Suc) 0) 0 1 (0, 0) = (0, 0)
   \<and> cond_lifetime (on_scope_failure (counted Suc) 0) 0 0 (0, 0) = (0, 0)
   \<and> cond_lifetime (on_scope_success (counted Suc) 0) 0 0 (0, 0) = (1, 1)
   \<and> cond_lifetime (on_scope_failure (counted Suc) 0) 2 1 (0, 0) = (0, 0)
   \<and> cond_lifetime (on_scope_success (counted Suc) 0) 2 1 (0, 0) = (0, 0)"
  using failure_and_success_complementary_unless_cancelled [where f = Suc and c_ctor = 0 and k = 0 and c_dtor = 1 and s = 0]
    failure_and_success_complementary_unless_cancelled [where f = Suc and c_ctor = 0 and k = 0 and c_dtor = 0 and s = 0]
    failure_and_success_complementary_unless_cancelled [where f = Suc and c_ctor = 0 and k = 2 and c_dtor = 1 and s = 0]
  by simp

subsection \<open>C5: the unconditional guard at scope exit\<close>

text \<open>
  C5 as stated, no invocation at all once \<^verbatim>\<open>cancel\<close> was called, fails when \<^verbatim>\<open>call_now\<close>
  is called as well: after \<^verbatim>\<open>cancel\<close>, \<^verbatim>\<open>call_now\<close> still runs the action.
\<close>

theorem call_now_after_cancel_invokes:
  "\<not> snd (lifetime (on_scope_exit (counted Suc)) [Cancel, CallNow] (0, 0)) = 0"
  by (simp add: lifetime_def on_scope_exit_def scoped_lambda_ctor_def cancel_def call_now_def
      scoped_lambda_dtor_def counted_def)

text \<open>
  C5, amended. For the guard \<^verbatim>\<open>on_scope_exit(f)\<close>: with no member call before the
  destruction, the destructor invokes \<open>f\<close> exactly once; if \<^verbatim>\<open>cancel\<close> was called and
  \<^verbatim>\<open>call_now\<close> never was, \<open>f\<close> is never invoked; and whenever \<^verbatim>\<open>cancel\<close> was called the
  destructor itself invokes nothing. The destructor reads nothing but the flag, so the
  way the scope is left plays no part.
\<close>

theorem on_scope_exit_fires_once_unless_cancelled:
  "lifetime (on_scope_exit a) [] w = a w
   \<and> lifetime (on_scope_exit (counted f)) [] (s, 0) = (f s, 1)
   \<and> (Cancel \<in> set ops \<and> CallNow \<notin> set ops \<longrightarrow>
        lifetime (on_scope_exit a) ops w = w
        \<and> lifetime (on_scope_exit (counted f)) ops (s, 0) = (s, 0))
   \<and> (Cancel \<in> set ops \<longrightarrow>
        lifetime (on_scope_exit a) ops w = snd (run_ops ops (on_scope_exit a, w)))"
proof -
  have armed: "\<not> sl_cancel (on_scope_exit x)" for x :: "'c \<Rightarrow> 'c"
    by (simp add: on_scope_exit_def scoped_lambda_ctor_def)
  have 1: "lifetime (on_scope_exit a) [] w = a w"
    by (simp add: lifetime_def on_scope_exit_def scoped_lambda_ctor_def scoped_lambda_dtor_def)
  have 2: "lifetime (on_scope_exit (counted f)) [] (s, 0) = (f s, 1)"
    by (simp add: lifetime_def on_scope_exit_def scoped_lambda_ctor_def scoped_lambda_dtor_def
        counted_def)
  have 3: "lifetime (on_scope_exit x) ops v = v"
    if "Cancel \<in> set ops \<and> CallNow \<notin> set ops" for x :: "'c \<Rightarrow> 'c" and v
  proof -
    from that have ne: "ops \<noteq> []" and z: "count_list ops CallNow = 0"
      by (auto simp add: count_list_0_iff)
    show ?thesis using lifetime_eq [of "on_scope_exit x" ops v] ne z by simp
  qed
  have 4: "lifetime (on_scope_exit a) ops w = snd (run_ops ops (on_scope_exit a, w))"
    if "Cancel \<in> set ops"
  proof -
    from that have ne: "ops \<noteq> []" by auto
    obtain g' w' where r: "run_ops ops (on_scope_exit a, w) = (g', w')"
      by (cases "run_ops ops (on_scope_exit a, w)")
    have "sl_cancel g'" using run_ops_cancelled [of ops "on_scope_exit a" w] r ne by simp
    then show ?thesis using r by (simp add: lifetime_def scoped_lambda_dtor_def)
  qed
  from 1 2 3 [of a w] 3 [of "counted f" "(s, 0)"] 4 show ?thesis by blast
qed

theorem on_scope_exit_fires_once_unless_cancelled_witness:
  "Cancel \<in> set [Cancel, Cancel] \<and> CallNow \<notin> set [Cancel, Cancel]
   \<and> lifetime (on_scope_exit (counted Suc)) [] (0, 0) = (1, 1)
   \<and> lifetime (on_scope_exit (counted Suc)) [Cancel, Cancel] (0, 0) = (0, 0)"
  using on_scope_exit_fires_once_unless_cancelled [where f = Suc and s = 0
      and ops = "[Cancel, Cancel]" and a = "counted Suc" and w = "(0, 0)"]
  by (simp add: counted_def)

subsection \<open>C6: \<^verbatim>\<open>call_now\<close> on an armed guard\<close>

text \<open>
  C6. On an unconditional guard that is armed (flag not set), \<^verbatim>\<open>call_now\<close> invokes the
  action exactly once, at once, and leaves the flag set; the destructor of the guard it
  leaves invokes nothing, whatever the state by then. Over the lifetime
  \<^verbatim>\<open>call_now\<close>, destruction, the action has run once.
\<close>

theorem call_now_fires_once_and_disarms:
  "call_now \<lparr>sl_func = a, sl_cancel = False\<rparr> w = (\<lparr>sl_func = a, sl_cancel = True\<rparr>, a w)
   \<and> call_now \<lparr>sl_func = counted f, sl_cancel = False\<rparr> (s, 0) =
       (\<lparr>sl_func = counted f, sl_cancel = True\<rparr>, (f s, 1))
   \<and> scoped_lambda_dtor (fst (call_now \<lparr>sl_func = a, sl_cancel = False\<rparr> w)) w' = w'
   \<and> lifetime \<lparr>sl_func = a, sl_cancel = False\<rparr> [CallNow] w = a w
   \<and> lifetime \<lparr>sl_func = counted f, sl_cancel = False\<rparr> [CallNow] (s, 0) = (f s, 1)
   \<and> lifetime (on_scope_exit (counted f)) [CallNow] (s, 0) = (f s, 1)"
  by (simp add: call_now_def scoped_lambda_dtor_def lifetime_def counted_def on_scope_exit_def
      scoped_lambda_ctor_def)

subsection \<open>C7: move construction\<close>

text \<open>
  C7. Move-constructing a guard from \<open>src\<close> (of either class), whatever the move of the
  callable leaves in the source: the source is left cancelled and its destructor
  invokes nothing; the new guard has the action of the source and the cancelled flag
  the source had before the move (for a conditional guard also its
  \<^verbatim>\<open>CALL_ON_FAILURE\<close> and its recorded count). The destructor of the new guard fires
  accordingly: for an unconditional guard it invokes the action of the source exactly
  when the source was not cancelled before the move, and for a conditional guard
  exactly when the source was not cancelled and the comparison of the counts agrees
  with \<^verbatim>\<open>CALL_ON_FAILURE\<close>. So the guard moved from a fresh \<^verbatim>\<open>on_scope_exit\<close> runs a
  counting action once, the one moved from a fresh \<^verbatim>\<open>on_scope_failure\<close> once when the
  count has increased and not otherwise, the one moved from a fresh
  \<^verbatim>\<open>on_scope_success\<close> the other way round, and a guard moved from a cancelled source
  never runs it. In each case this is what the destructor of the source would have
  done before the move.
\<close>

theorem move_cancels_source_and_keeps_status:
  "sl_cancel (snd (scoped_lambda_move moved_from src))
   \<and> scoped_lambda_dtor (snd (scoped_lambda_move moved_from src)) w = w
   \<and> sl_func (fst (scoped_lambda_move moved_from src)) = sl_func src
   \<and> sl_cancel (fst (scoped_lambda_move moved_from src)) = sl_cancel src
   \<and> scoped_lambda_dtor (fst (scoped_lambda_move moved_from src)) w = scoped_lambda_dtor src w
   \<and> scoped_lambda_dtor (fst (scoped_lambda_move moved_from src)) w =
       (if sl_cancel src then w else sl_func src w)
   \<and> scoped_lambda_dtor (fst (scoped_lambda_move moved_from' (on_scope_exit (counted f)))) (s, 0) =
       (f s, 1)
   \<and> scoped_lambda_dtor
       (fst (scoped_lambda_move moved_from' (cancel (on_scope_exit (counted f))))) (s, 0) = (s, 0)
   \<and> scoped_lambda_dtor (snd (scoped_lambda_move moved_from' (on_scope_exit (counted f)))) (s, 0) =
       (s, 0)
   \<and> csl_cancel (snd (conditional_scoped_lambda_move cmoved_from csrc))
   \<and> conditional_scoped_lambda_dtor (snd (conditional_scoped_lambda_move cmoved_from csrc)) n w = w
   \<and> csl_func (fst (conditional_scoped_lambda_move cmoved_from csrc)) = csl_func csrc
   \<and> csl_cancel (fst (conditional_scoped_lambda_move cmoved_from csrc)) = csl_cancel csrc
   \<and> CALL_ON_FAILURE (fst (conditional_scoped_lambda_move cmoved_from csrc)) = CALL_ON_FAILURE csrc
   \<and> conditional_scoped_lambda_dtor (fst (conditional_scoped_lambda_move cmoved_from csrc)) n w =
       conditional_scoped_lambda_dtor csrc n w
   \<and> conditional_scoped_lambda_dtor (fst (conditional_scoped_lambda_move cmoved_from csrc)) n w =
       (if \<not> csl_cancel csrc \<and> ((n > csl_uncaught_exception_count csrc) = CALL_ON_FAILURE csrc)
        then csl_func csrc w else w)
   \<and> conditional_scoped_lambda_dtor
       (fst (conditional_scoped_lambda_move moved_from' (on_scope_failure (counted f) c_ctor)))
       c_dtor (s, 0) = (if c_dtor > c_ctor then (f s, 1) else (s, 0))
   \<and> conditional_scoped_lambda_dtor
       (fst (conditional_scoped_lambda_move moved_from' (on_scope_success (counted f) c_ctor)))
       c_dtor (s, 0) = (if c_dtor > c_ctor then (s, 0) else (f s, 1))
   \<and> conditional_scoped_lambda_dtor
       (fst (conditional_scoped_lambda_move moved_from'
          (cond_cancel (on_scope_failure (counted f) c_ctor))))
       c_dtor (s, 0) = (s, 0)
   \<and> conditional_scoped_lambda_dtor
       (fst (conditional_scoped_lambda_move moved_from'
          (cond_cancel (on_scope_success (counted f) c_ctor))))
       c_dtor (s, 0) = (s, 0)
   \<and> conditional_scoped_lambda_dtor
       (snd (conditional_scoped_lambda_move moved_from' (on_scope_failure (counted f) c_ctor)))
       c_dtor (s, 0) = (s, 0)"
  by (simp add: scoped_lambda_move_def cancel_def scoped_lambda_dtor_def
      conditional_scoped_lambda_move_def cond_cancel_def conditional_scoped_lambda_dtor_def
      is_unwinding_due_to_exception_def on_scope_exit_def scoped_lambda_ctor_def
      on_scope_failure_def on_scope_success_def conditional_scoped_lambda_ctor_def counted_def)

subsection \<open>C8: the \<^verbatim>\<open>ON_SCOPE_EXIT\<close> form\<close>

text \<open>
  C8. The guard that \<^verbatim>\<open>ON_SCOPE_EXIT\<close> declares, \<^verbatim>\<open>ScopeExit() + f\<close>, is the guard
  \<^verbatim>\<open>on_scope_exit(f)\<close>: the same value, hence the same behaviour over every sequence of
  member calls and destruction, and under a move.
\<close>

theorem ON_SCOPE_EXIT_is_on_scope_exit:
  "ON_SCOPE_EXIT f = on_scope_exit f
   \<and> operator_plus ScopeExit f = on_scope_exit f
   \<and> lifetime (ON_SCOPE_EXIT f) ops w = lifetime (on_scope_exit f) ops w
   \<and> scoped_lambda_move moved_from (ON_SCOPE_EXIT f) =
       scoped_lambda_move moved_from (on_scope_exit f)"
  by (simp add: ON_SCOPE_EXIT_def operator_plus_def)

subsection \<open>C9: \<^verbatim>\<open>call_now\<close> does not read the flag\<close>

text \<open>
  C9. \<^verbatim>\<open>call_now\<close> sets the flag and invokes the action whatever the flag was: it
  invokes the action after \<^verbatim>\<open>cancel\<close>, and a second \<^verbatim>\<open>call_now\<close> invokes it a second
  time. Only the destructor is held back by the flag: after \<^verbatim>\<open>cancel\<close> or \<^verbatim>\<open>call_now\<close>
  it invokes nothing. After one \<^verbatim>\<open>cancel\<close>, \<open>k\<close> calls of \<^verbatim>\<open>call_now\<close> and the
  destruction, the action has run \<open>k\<close> times.
\<close>

theorem call_now_ignores_cancelled_flag:
  "call_now g w = (g\<lparr>sl_cancel := True\<rparr>, sl_func g w)
   \<and> snd (call_now (cancel g) w) = sl_func g w
   \<and> snd (call_now (fst (call_now g w)) (snd (call_now g w))) = sl_func g (sl_func g w)
   \<and> scoped_lambda_dtor (cancel g) w = w
   \<and> scoped_lambda_dtor (fst (call_now g w)) w = w
   \<and> lifetime \<lparr>sl_func = counted f, sl_cancel = b\<rparr> (Cancel # replicate k CallNow) (s, 0) =
       ((f ^^ k) s, k)"
proof -
  let ?g = "\<lparr>sl_func = counted f, sl_cancel = b\<rparr>"
  have "lifetime ?g (Cancel # replicate k CallNow) (s, 0) = (counted f ^^ k) (s, 0)"
    using lifetime_eq [of ?g "Cancel # replicate k CallNow" "(s, 0)"]
    by (simp add: count_list_replicate_self)
  then have "lifetime ?g (Cancel # replicate k CallNow) (s, 0) = ((f ^^ k) s, k)"
    by (simp add: counted_funpow)
  then show ?thesis
    by (simp add: call_now_def cancel_def scoped_lambda_dtor_def)
qed

subsection \<open>C10: a move keeps the recorded exception count\<close>

text \<open>
  C10. The move constructor of a conditional guard copies the recorded count of
  uncaught exceptions and does not read the current one. So the destructor of the
  destination decides against the count recorded when the source was constructed: for
  a guard constructed at count \<open>c_ctor\<close> and then moved, the destination destroyed at
  count \<open>c_dtor\<close> invokes the action exactly when \<open>(c_dtor > c_ctor) = CALL_ON_FAILURE\<close>.
\<close>

theorem move_keeps_exception_count_snapshot:
  "csl_uncaught_exception_count (fst (conditional_scoped_lambda_move moved_from g)) =
     csl_uncaught_exception_count g
   \<and> is_unwinding_due_to_exception (fst (conditional_scoped_lambda_move moved_from g)) c_dtor =
       is_unwinding_due_to_exception g c_dtor
   \<and> csl_uncaught_exception_count
       (fst (conditional_scoped_lambda_move moved_from
          (conditional_scoped_lambda_ctor cf a c_ctor))) = c_ctor
   \<and> conditional_scoped_lambda_dtor
       (fst (conditional_scoped_lambda_move moved_from
          (conditional_scoped_lambda_ctor cf a c_ctor)))
       c_dtor w = (if (c_dtor > c_ctor) = cf then a w else w)
   \<and> conditional_scoped_lambda_dtor
       (fst (conditional_scoped_lambda_move moved_from'
          (conditional_scoped_lambda_ctor cf (counted f) c_ctor)))
       c_dtor (s, 0) = (if (c_dtor > c_ctor) = cf then (f s, 1) else (s, 0))"
  by (simp add: conditional_scoped_lambda_move_def conditional_scoped_lambda_ctor_def
      conditional_scoped_lambda_dtor_def is_unwinding_due_to_exception_def counted_def)

section \<open>Properties of the member access\<close>

text \<open>
  C1 as stated, a tuple of the members' current values, fails: \<^verbatim>\<open>steal_impl\<close> returns
  \<^verbatim>\<open>std::make_tuple(Field...)\<close>, the pointers to the members, and never reads its
  argument. For the type with three members, the tuple returned for an instance is not
  the tuple of its member values, and two instances with different member values get
  the same tuple.
\<close>

theorem steal_impl_returns_member_pointers_not_values:
  "steal_impl [Member_a, Member_b, Member_c] instance1 \<noteq>
     member_values [Member_a, Member_b, Member_c] instance1
   \<and> steal_impl [Member_a, Member_b, Member_c] instance1 =
       steal_impl [Member_a, Member_b, Member_c] instance2
   \<and> member_values [Member_a, Member_b, Member_c] instance1 \<noteq>
       member_values [Member_a, Member_b, Member_c] instance2"
  by (simp add: steal_impl_def member_values_def)

text \<open>
  C1, amended. \<^verbatim>\<open>steal_impl\<close> returns the tuple of the declared member pointers, in the
  order of the declaration and one per declared member, the same for every instance of
  the type; dereferencing the returned pointers on an instance (\<^verbatim>\<open>t.*p\<close>) gives the
  current values of the declared members of that instance.
\<close>

theorem steal_impl_returns_declared_member_pointers:
  "steal_impl ptrs t = map MemberPtr ptrs
   \<and> steal_impl ptrs t = steal_impl ptrs t'
   \<and> length (steal_impl ptrs t) = length ptrs
   \<and> map (deref t) (steal_impl ptrs t) = map (\<lambda>m. Some (t m)) ptrs"
  by (simp add: steal_impl_def comp_def)

theorem steal_impl_returns_declared_member_pointers_witness:
  "steal_impl [Member_a, Member_b, Member_c] instance1 =
       [MemberPtr Member_a, MemberPtr Member_b, MemberPtr Member_c]
   \<and> steal_impl [Member_a, Member_b, Member_c] instance1 =
       steal_impl [Member_a, Member_b, Member_c] instance2
   \<and> map (deref instance1) (steal_impl [Member_a, Member_b, Member_c] instance1) =
       [Some (IntV 1), Some (BoolV True), Some (StrV ''x'')]
   \<and> map (deref instance2) (steal_impl [Member_a, Member_b, Member_c] instance2) =
       [Some (IntV 2), Some (BoolV False), Some (StrV ''y'')]"
  using steal_impl_returns_declared_member_pointers
      [where ptrs = "[Member_a, Member_b, Member_c]" and t = instance1 and t' = instance2]
    steal_impl_returns_declared_member_pointers
      [where ptrs = "[Member_a, Member_b, Member_c]" and t = instance2 and t' = instance1]
  by simp

end
